theory Spec2Isabelle
  imports Main "HOL-Library.Finite_Map"
begin

section \<open>React nodes\<close>

text \<open>
  The hook \<^verbatim>\<open>useEnhanceChildren\<close> (src/hooks/useEnhanceChildren.ts) walks a
  \<^verbatim>\<open>ReactNode\<close>. The values it can meet are modelled by one datatype: the empty
  values \<^verbatim>\<open>null\<close>, \<^verbatim>\<open>undefined\<close> and the booleans, numbers (integers),
  strings, arrays, and React elements. An element has a type, a key (\<^verbatim>\<open>null\<close> is
  \<open>None\<close>) and its props object; a props object maps property names to values, and
  the values are nodes again (the \<^verbatim>\<open>children\<close> prop is an entry like any other).

  An element type is either a string (a native tag such as \<^verbatim>\<open>div\<close>) or a component.
  A component is identified by a number (the identity of the function) and carries the
  optional \<^verbatim>\<open>displayName\<close> the hook reads.

  Portals, lazy elements, iterables other than arrays, promises and bigints are not
  modelled. The functions of React the hook calls (\<^verbatim>\<open>isValidElement\<close>,
  \<^verbatim>\<open>cloneElement\<close>, \<^verbatim>\<open>Children.map\<close>) are modelled as React 19 defines them, the
  version the repository builds on.
\<close>

datatype element_type =
    HostTag string
  | Component nat "string option"

datatype node =
    Null
  | Undefined
  | Bool bool
  | Num int
  | Text string
  | Array "node list"
  | Element element_type "string option" "(string, node) fmap"

type_synonym attrs = "(string, node) fmap"

text \<open>
  The second argument of the hook. The overloads type it as either
  \<^verbatim>\<open>{ mapProps }\<close> or \<^verbatim>\<open>{ props }\<close>; at run time it is an object on which
  either field may be present, so both are optional here.
\<close>

record options =
  mapProps :: "(string, attrs) fmap option"
  props :: "attrs option"

section \<open>JavaScript primitives\<close>

text \<open>Truthiness of a value, as \<^verbatim>\<open>if (v)\<close> and \<^verbatim>\<open>!v\<close> read it.\<close>

fun truthy :: "node \<Rightarrow> bool" where
  "truthy Null = False"
| "truthy Undefined = False"
| "truthy (Bool b) = b"
| "truthy (Num n) = (n \<noteq> 0)"
| "truthy (Text s) = (s \<noteq> [])"
| "truthy (Array xs) = True"
| "truthy (Element ty key ps) = True"

text \<open>\<^verbatim>\<open>React.isValidElement\<close>.\<close>

fun isValidElement :: "node \<Rightarrow> bool" where
  "isValidElement (Element ty key ps) = True"
| "isValidElement Null = False"
| "isValidElement Undefined = False"
| "isValidElement (Bool b) = False"
| "isValidElement (Num n) = False"
| "isValidElement (Text s) = False"
| "isValidElement (Array xs) = False"

text \<open>
  The digits, \<^verbatim>\<open>n.toString(36)\<close> for an index, and the decimal digits of an integer
  that is not negative.
\<close>

definition digit36 :: "nat \<Rightarrow> char" where
  "digit36 d = ''0123456789abcdefghijklmnopqrstuvwxyz'' ! d"

function toString36 :: "nat \<Rightarrow> string" where
  "toString36 n =
     (if n < 36 then [digit36 n] else toString36 (n div 36) @ [digit36 (n mod 36)])"
  by pat_completeness auto
termination
  by (relation "measure id") auto

function toString10 :: "int \<Rightarrow> string" where
  "toString10 n =
     (if n < 10 then [digit36 (nat n)]
      else toString10 (n div 10) @ [digit36 (nat (n mod 10))])"
  by pat_completeness auto
termination
  by (relation "measure nat") auto

text \<open>
  String coercion \<^verbatim>\<open>'' + v\<close>: an array joins its members with commas, printing
  \<^verbatim>\<open>null\<close> and \<^verbatim>\<open>undefined\<close> members as the empty string; an element is a plain
  object. A number is an integer here and stands for the JavaScript number of that
  value. Below \<open>10\<^sup>2\<^sup>1\<close> JavaScript prints all its digits; from there on it prints
  exponent notation (\<^verbatim>\<open>1e+21\<close>, \<^verbatim>\<open>1.5e+21\<close>) with the shortest digits that read
  back as the same double. \<open>numberToString\<close> prints the digits of the integer without
  its trailing zeros in that notation: the same string whenever the integer has at
  most 15 significant digits.
\<close>

fun joinComma :: "string list \<Rightarrow> string" where
  "joinComma [] = []"
| "joinComma [s] = s"
| "joinComma (s # t # ss) = s @ '','' @ joinComma (t # ss)"

definition numberToString :: "int \<Rightarrow> string" where
  "numberToString n =
     (let digits = toString10 \<bar>n\<bar>;
          sign = (if n < 0 then ''-'' else [])
      in if length digits \<le> 21 then sign @ digits
         else
           (case rev (dropWhile (\<lambda>c. c = CHR ''0'') (rev digits)) of
              [] \<Rightarrow> sign @ digits
            | d # ds \<Rightarrow>
                sign @ [d] @ (if ds = [] then [] else ''.'' @ ds) @ ''e+'' @
                toString10 (int (length digits) - 1)))"

fun toString :: "node \<Rightarrow> string" where
  "toString Null = ''null''"
| "toString Undefined = ''undefined''"
| "toString (Bool b) = (if b then ''true'' else ''false'')"
| "toString (Num n) = numberToString n"
| "toString (Text s) = s"
| "toString (Array xs) =
     joinComma (map (\<lambda>x. if x = Null \<or> x = Undefined then [] else toString x) xs)"
| "toString (Element ty key ps) = ''[object Object]''"

section \<open>React.cloneElement\<close>

text \<open>
  \<^verbatim>\<open>React.cloneElement(element, config)\<close> copies the element's props and then assigns
  every own property of \<^verbatim>\<open>config\<close> over them, except the reserved names: \<^verbatim>\<open>key\<close>,
  \<^verbatim>\<open>__self\<close>, \<^verbatim>\<open>__source\<close>, and \<^verbatim>\<open>ref\<close> when its value is \<^verbatim>\<open>undefined\<close>. A
  \<^verbatim>\<open>key\<close> in \<^verbatim>\<open>config\<close> that is not \<^verbatim>\<open>undefined\<close> becomes, as a string, the key of
  the clone. The type is kept. (React 19 resolves no \<^verbatim>\<open>defaultProps\<close> here.)
\<close>

definition reserved :: "attrs \<Rightarrow> string \<Rightarrow> bool" where
  "reserved config name =
     (name = ''key'' \<or> name = ''__self'' \<or> name = ''__source'' \<or>
      (name = ''ref'' \<and> fmlookup config ''ref'' = Some Undefined))"

definition assignable :: "attrs \<Rightarrow> attrs" where
  "assignable config = fmfilter (\<lambda>name. \<not> reserved config name) config"

definition cloneKey :: "string option \<Rightarrow> attrs \<Rightarrow> string option" where
  "cloneKey key config =
     (case fmlookup config ''key'' of
        None \<Rightarrow> key
      | Some v \<Rightarrow> if v = Undefined then key else Some (toString v))"

definition cloneElement :: "element_type \<Rightarrow> string option \<Rightarrow> attrs \<Rightarrow> attrs \<Rightarrow> node" where
  "cloneElement ty key elementProps config =
     Element ty (cloneKey key config) (elementProps ++\<^sub>f assignable config)"

section \<open>React.Children.map\<close>

text \<open>
  The keys \<^verbatim>\<open>React.Children.map\<close> gives to the elements it returns are built from
  these helpers of React: \<^verbatim>\<open>escape\<close> (a dollar sign, then the key with \<^verbatim>\<open>=\<close> and
  \<^verbatim>\<open>:\<close> escaped), \<^verbatim>\<open>escapeUserProvidedKey\<close> (a slash appended to every run of
  slashes) and \<^verbatim>\<open>getElementKey\<close> (the escaped key of an element that has one, the
  index in base 36 otherwise).
\<close>

definition escape :: "string \<Rightarrow> string" where
  "escape key =
     CHR ''$'' # concat (map (\<lambda>c. if c = CHR ''='' then ''=0''
                                    else if c = CHR '':'' then ''=2'' else [c]) key)"

fun escapeUserProvidedKey :: "string \<Rightarrow> string" where
  "escapeUserProvidedKey [] = []"
| "escapeUserProvidedKey [c] = (if c = CHR ''/'' then ''//'' else [c])"
| "escapeUserProvidedKey (c # d # cs) =
     (if c = CHR ''/'' \<and> d \<noteq> CHR ''/''
      then c # CHR ''/'' # escapeUserProvidedKey (d # cs)
      else c # escapeUserProvidedKey (d # cs))"

fun getElementKey :: "node \<Rightarrow> nat \<Rightarrow> string" where
  "getElementKey (Element ty (Some key) ps) index = escape key"
| "getElementKey child index = toString36 index"

text \<open>
  \<^verbatim>\<open>mapIntoArray\<close> descends into arrays and calls the callback on everything else,
  in order; \<^verbatim>\<open>undefined\<close> and booleans reach the callback as \<^verbatim>\<open>null\<close>. \<open>traverse\<close>
  lists these calls: for every child the callback receives, the child and the name
  React has built for it (\<^verbatim>\<open>childKey\<close>). The first argument is \<^verbatim>\<open>nameSoFar\<close>.
\<close>

fun perceived :: "node \<Rightarrow> node" where
  "perceived Undefined = Null"
| "perceived (Bool b) = Null"
| "perceived child = child"

fun traverse :: "string \<Rightarrow> node \<Rightarrow> (string \<times> node) list"
  and traverseArray :: "string \<Rightarrow> nat \<Rightarrow> node list \<Rightarrow> (string \<times> node) list" where
  "traverse nameSoFar (Array xs) =
     traverseArray (if nameSoFar = [] then ''.'' else nameSoFar @ '':'') 0 xs"
| "traverse nameSoFar child =
     [(if nameSoFar = [] then ''.'' @ getElementKey child 0 else nameSoFar, perceived child)]"
| "traverseArray nextNamePrefix i [] = []"
| "traverseArray nextNamePrefix i (x # xs) =
     traverse (nextNamePrefix @ getElementKey x i) x @ traverseArray nextNamePrefix (Suc i) xs"

text \<open>
  What \<^verbatim>\<open>mapIntoArray\<close> pushes for one call of the callback. A result that is
  \<^verbatim>\<open>null\<close> or \<^verbatim>\<open>undefined\<close> is dropped. An element is cloned with a new key: the
  prefix, then the result's own key (escaped, with a slash) when it has one that
  differs from the child's, then the name of the child. Any other value is pushed as
  it is. \<open>sameKey child key\<close> is \<^verbatim>\<open>child && child.key === key\<close> for a key that is
  not \<^verbatim>\<open>null\<close>.
\<close>

fun sameKey :: "node \<Rightarrow> string \<Rightarrow> bool" where
  "sameKey (Element ty childKey ps) key = (childKey = Some key)"
| "sameKey child key = False"

fun pushMapped :: "string \<Rightarrow> string \<Rightarrow> node \<Rightarrow> node \<Rightarrow> node list" where
  "pushMapped escapedPrefix childKey child Null = []"
| "pushMapped escapedPrefix childKey child Undefined = []"
| "pushMapped escapedPrefix childKey child (Element ty key ps) =
     [Element ty
        (Some (escapedPrefix @
               (case key of
                  None \<Rightarrow> []
                | Some k \<Rightarrow> if sameKey child k then [] else escapeUserProvidedKey k @ ''/'') @
               childKey))
        ps]"
| "pushMapped escapedPrefix childKey child mappedChild = [mappedChild]"

text \<open>
  A callback result that is an array is flattened by a second traversal under the
  identity callback, with the escaped name of the child as prefix.
\<close>

definition pushResult :: "string \<Rightarrow> node \<Rightarrow> node \<Rightarrow> node list" where
  "pushResult childKey child mappedChild =
     (case mappedChild of
        Array ys \<Rightarrow>
          concat (map (\<lambda>(name, c). pushMapped (escapeUserProvidedKey childKey @ ''/'') name c c)
                      (traverse [] mappedChild))
      | _ \<Rightarrow> pushMapped [] childKey child mappedChild)"

text \<open>
  \<^verbatim>\<open>React.Children.map(children, fn)\<close>: \<^verbatim>\<open>null\<close> and \<^verbatim>\<open>undefined\<close> are returned
  as they are; anything else gives a flat array.
\<close>

definition mapChildren :: "(node \<Rightarrow> node) \<Rightarrow> node \<Rightarrow> node" where
  "mapChildren fn children =
     (if children = Null \<or> children = Undefined then children
      else Array (concat (map (\<lambda>(childKey, child). pushResult childKey child (fn child))
                              (traverse [] children))))"

lemma size_fmlookup: "fmlookup ps k = Some c \<Longrightarrow> size c < size (Element ty key ps)"
proof -
  assume "fmlookup ps k = Some c"
  then have "(k, c) \<in> fset (fset_of_fmap ps)"
    by simp
  then have "Suc (size c) \<le> (\<Sum>x\<in>fset (fset_of_fmap ps). Suc (case x of (a, b) \<Rightarrow> size b))"
    using member_le_sum [of "(k, c)" "fset (fset_of_fmap ps)" "\<lambda>x. Suc (case x of (a, b) \<Rightarrow> size b)"]
    by simp
  then show ?thesis
    by (simp add: size_fset_simps)
qed

lemma size_traverse:
  "(name, x) \<in> set (traverse nm c) \<Longrightarrow> size x \<le> size c"
  "(name, x) \<in> set (traverseArray pre i cs) \<Longrightarrow> size x \<le> size_list size cs"
  by (induction nm c and pre i cs rule: traverse_traverseArray.induct) auto

lemma mapChildren_cong [fundef_cong]:
  "children = children' \<Longrightarrow>
   (\<And>name x. (name, x) \<in> set (traverse [] children') \<Longrightarrow> f x = g x) \<Longrightarrow>
   mapChildren f children = mapChildren g children'"
  unfolding mapChildren_def
  by (auto intro!: arg_cong [where f = concat] map_cong)

section \<open>The hook\<close>

text \<open>
  The three constants the callback computes for a component element:
  \<^verbatim>\<open>const childName = type?.displayName ?? ''\<close>,
  \<^verbatim>\<open>const inheritedProps = 'mapProps' in options ? options.mapProps[childName] : options.props\<close>
  (a missing entry or field is \<^verbatim>\<open>undefined\<close>, here \<open>None\<close>), and the test
  \<^verbatim>\<open>inheritedProps && Object.keys(inheritedProps).length > 0\<close>.
\<close>

definition childName :: "string option \<Rightarrow> string" where
  "childName displayName = (case displayName of None \<Rightarrow> [] | Some name \<Rightarrow> name)"

definition inheritedProps :: "options \<Rightarrow> string \<Rightarrow> attrs option" where
  "inheritedProps opts name =
     (case mapProps opts of
        Some m \<Rightarrow> fmlookup m name
      | None \<Rightarrow> props opts)"

definition hasKeys :: "attrs option \<Rightarrow> bool" where
  "hasKeys inherited = (case inherited of None \<Rightarrow> False | Some a \<Rightarrow> a \<noteq> fmempty)"

text \<open>The object literal \<^verbatim>\<open>{ ...inheritedProps, ...childProps }\<close>.\<close>

definition spread :: "attrs option \<Rightarrow> attrs \<Rightarrow> attrs" where
  "spread inherited childProps =
     (case inherited of None \<Rightarrow> childProps | Some a \<Rightarrow> a ++\<^sub>f childProps)"

text \<open>
  The callback \<^verbatim>\<open>enhance\<close>, a closure over \<^verbatim>\<open>options\<close>. Its branches, in the
  order of the source: a value that is not an element is returned; an element whose
  type is a string is returned; a component element with inherited props is cloned
  with the inherited props under its own; otherwise, when its \<^verbatim>\<open>children\<close> prop is
  truthy, it is cloned with the children mapped by \<^verbatim>\<open>enhance\<close>; otherwise it is
  returned.
\<close>

function enhance :: "options \<Rightarrow> node \<Rightarrow> node" where
  "enhance opts Null = Null"
| "enhance opts Undefined = Undefined"
| "enhance opts (Bool b) = Bool b"
| "enhance opts (Num n) = Num n"
| "enhance opts (Text s) = Text s"
| "enhance opts (Array xs) = Array xs"
| "enhance opts (Element (HostTag tag) key childProps) = Element (HostTag tag) key childProps"
| "enhance opts (Element (Component cid displayName) key childProps) =
     (if hasKeys (inheritedProps opts (childName displayName))
      then cloneElement (Component cid displayName) key childProps
             (spread (inheritedProps opts (childName displayName)) childProps)
      else
        (case fmlookup childProps ''children'' of
           None \<Rightarrow> Element (Component cid displayName) key childProps
         | Some c \<Rightarrow>
             if truthy c
             then cloneElement (Component cid displayName) key childProps
                    (fmupd ''children'' (mapChildren (enhance opts) c) childProps)
             else Element (Component cid displayName) key childProps))"
  by pat_completeness auto
termination
  by (relation "measure (\<lambda>(opts, child). size child)")
     (auto dest!: size_fmlookup size_traverse(1))

text \<open>
  \<^verbatim>\<open>useEnhanceChildren(children, options)\<close> returns
  \<^verbatim>\<open>React.Children.map(children, enhance)\<close>. The \<^verbatim>\<open>useMemo\<close> around it caches
  the value of a pure computation and is the identity here.
\<close>

definition useEnhanceChildren :: "node \<Rightarrow> options \<Rightarrow> node" where
  "useEnhanceChildren children opts = mapChildren (enhance opts) children"

section \<open>Observations on nodes\<close>

text \<open>\<^verbatim>\<open>node.props[name]\<close> for an element; other values have no props.\<close>

fun propOf :: "node \<Rightarrow> string \<Rightarrow> node option" where
  "propOf (Element ty key ps) name = fmlookup ps name"
| "propOf child name = None"

text \<open>\<^verbatim>\<open>Array.isArray\<close>.\<close>

fun isArray :: "node \<Rightarrow> bool" where
  "isArray (Array xs) = True"
| "isArray child = False"

text \<open>A value that is a number, a string or an element: what React calls a non-empty node.\<close>

fun solid :: "node \<Rightarrow> bool" where
  "solid (Num n) = True"
| "solid (Text s) = True"
| "solid (Element ty key ps) = True"
| "solid child = False"

text \<open>An array all of whose members are non-empty nodes.\<close>

fun flatArray :: "node \<Rightarrow> bool" where
  "flatArray (Array ys) = list_all solid ys"
| "flatArray child = False"

text \<open>The same value with the key of every element in it erased.\<close>

primrec stripKeys :: "node \<Rightarrow> node" where
  "stripKeys Null = Null"
| "stripKeys Undefined = Undefined"
| "stripKeys (Bool b) = Bool b"
| "stripKeys (Num n) = Num n"
| "stripKeys (Text s) = Text s"
| "stripKeys (Array xs) = Array (map stripKeys xs)"
| "stripKeys (Element ty key ps) = Element ty None (fmmap stripKeys ps)"

text \<open>
  The outline of a value: its non-empty nodes in order, arrays read as the sequence of
  their members, each string and number with its value and each element with its type
  and the outline of its \<^verbatim>\<open>children\<close> prop. Empty values (\<^verbatim>\<open>null\<close>, \<^verbatim>\<open>undefined\<close>,
  booleans) have no outline.
\<close>

datatype shape =
    TextShape string
  | NumShape int
  | ElementShape element_type "shape list"

function outline :: "node \<Rightarrow> shape list" where
  "outline Null = []"
| "outline Undefined = []"
| "outline (Bool b) = []"
| "outline (Num n) = [NumShape n]"
| "outline (Text s) = [TextShape s]"
| "outline (Array xs) = concat (map outline xs)"
| "outline (Element ty key ps) =
     [ElementShape ty (case fmlookup ps ''children'' of None \<Rightarrow> [] | Some c \<Rightarrow> outline c)]"
  by pat_completeness auto
termination
  by (relation "measure size")
     (auto dest: size_fmlookup simp: less_Suc_eq_le size_list_estimation')

section \<open>The callback, branch by branch\<close>

lemma traverse_not_array:
  "(name, x) \<in> set (traverse nm c) \<Longrightarrow> \<not> isArray x"
  "(name, x) \<in> set (traverseArray pre i cs) \<Longrightarrow> \<not> isArray x"
  by (induction nm c and pre i cs rule: traverse_traverseArray.induct) auto

lemma enhance_isArray: "isArray (enhance opts child) = isArray child"
  by (cases "(opts, child)" rule: enhance.cases)
     (auto simp: cloneElement_def split: option.splits)

lemma pushResult_not_array:
  "\<not> isArray mapped \<Longrightarrow> pushResult childKey child mapped = pushMapped [] childKey child mapped"
  by (cases mapped) (simp_all add: pushResult_def)

text \<open>
  \<^verbatim>\<open>enhance\<close> returns an array only for an array, and \<^verbatim>\<open>React.Children.map\<close> never
  calls it on one: the flattening of an array result is never taken.
\<close>

lemma mapChildren_enhance:
  "mapChildren (enhance opts) children =
     (if children = Null \<or> children = Undefined then children
      else Array (concat (map (\<lambda>(name, child). pushMapped [] name child (enhance opts child))
                              (traverse [] children))))"
proof -
  have eq: "map (\<lambda>(childKey, child). pushResult childKey child (enhance opts child)) (traverse [] children)
      = map (\<lambda>(name, child). pushMapped [] name child (enhance opts child)) (traverse [] children)"
    by (rule map_cong) (auto simp: pushResult_not_array enhance_isArray dest: traverse_not_array(1))
  show ?thesis
    unfolding mapChildren_def eq ..
qed

text \<open>The props of a clone made from \<^verbatim>\<open>{ ...inheritedProps, ...childProps }\<close>.\<close>

lemma own_over_assignable:
  "fmlookup (own ++\<^sub>f assignable (a ++\<^sub>f own)) k =
     (case fmlookup own k of
        Some v \<Rightarrow> Some v
      | None \<Rightarrow> if reserved a k then None else fmlookup a k)"
  by (auto simp: assignable_def reserved_def fmlookup_dom_iff split: option.splits)

text \<open>The props of a clone made from \<^verbatim>\<open>{ ...childProps, children: x }\<close>.\<close>

lemma own_over_children:
  "own ++\<^sub>f assignable (fmupd ''children'' x own) = fmupd ''children'' x own"
  by (rule fmap_ext) (auto simp: assignable_def reserved_def fmlookup_dom_iff)

lemma cloneKey_children:
  "cloneKey key (fmupd ''children'' x own) = cloneKey key own"
  by (simp add: cloneKey_def)

lemma enhance_matched:
  "inheritedProps opts (childName displayName) = Some a \<Longrightarrow> a \<noteq> fmempty \<Longrightarrow>
   enhance opts (Element (Component cid displayName) key own) =
     cloneElement (Component cid displayName) key own (a ++\<^sub>f own)"
  by (simp add: hasKeys_def spread_def)

lemma enhance_unmatched_children:
  "\<not> hasKeys (inheritedProps opts (childName displayName)) \<Longrightarrow>
   fmlookup own ''children'' = Some c \<Longrightarrow> truthy c \<Longrightarrow>
   enhance opts (Element (Component cid displayName) key own) =
     Element (Component cid displayName) (cloneKey key own)
       (fmupd ''children'' (mapChildren (enhance opts) c) own)"
  by (simp add: cloneElement_def own_over_children cloneKey_children)

lemma enhance_unmatched_leaf:
  "\<not> hasKeys (inheritedProps opts (childName displayName)) \<Longrightarrow>
   (case fmlookup own ''children'' of None \<Rightarrow> True | Some c \<Rightarrow> \<not> truthy c) \<Longrightarrow>
   enhance opts (Element (Component cid displayName) key own) =
     Element (Component cid displayName) key own"
  by (simp split: option.splits)

declare enhance.simps(8) [simp del]

section \<open>Pass-through of native elements and of values that are not elements\<close>

text \<open>
  C7. An element whose type is a string (a native tag) is returned by \<^verbatim>\<open>enhance\<close> as
  it is, whatever the options: it is not cloned, so it receives nothing and its
  children are not visited. Every value that is not an element (a string, a number,
  \<^verbatim>\<open>null\<close>, \<^verbatim>\<open>undefined\<close>, a boolean) is returned as it is.
\<close>

theorem enhance_passthrough:
  "(\<forall>tag key ps. enhance opts (Element (HostTag tag) key ps) = Element (HostTag tag) key ps) \<and>
   (\<forall>child. \<not> isValidElement child \<longrightarrow> enhance opts child = child)"
proof (intro conjI allI impI)
  fix child
  assume "\<not> isValidElement child"
  then show "enhance opts child = child"
    by (cases child) simp_all
qed simp

theorem enhance_passthrough_witness:
  "enhance \<lparr>mapProps = None, props = Some (fmupd ''title'' (Text ''Test Title'') fmempty)\<rparr>
     (Element (HostTag ''div'') None (fmupd ''children'' (Text ''Native Div'') fmempty))
   = Element (HostTag ''div'') None (fmupd ''children'' (Text ''Native Div'') fmempty) \<and>
   \<not> isValidElement (Text ''Just a string'') \<and>
   enhance \<lparr>mapProps = None, props = Some (fmupd ''title'' (Text ''Test Title'') fmempty)\<rparr>
     (Text ''Just a string'') = Text ''Just a string'' \<and>
   \<not> isValidElement (Num 42) \<and>
   enhance \<lparr>mapProps = None, props = Some (fmupd ''title'' (Text ''Test Title'') fmempty)\<rparr>
     (Num 42) = Num 42 \<and>
   \<not> isValidElement Null \<and>
   enhance \<lparr>mapProps = None, props = Some (fmupd ''title'' (Text ''Test Title'') fmempty)\<rparr>
     Null = Null"
  using enhance_passthrough
    [of "\<lparr>mapProps = None, props = Some (fmupd ''title'' (Text ''Test Title'') fmempty)\<rparr>"]
  by simp

section \<open>Matched components\<close>

text \<open>
  C5, as it stands, fails for a node without children when the inherited props hold a
  \<^verbatim>\<open>children\<close> key: the children of the matched node are not carried over
  unchanged, the node receives the injected ones. Here a \<^verbatim>\<open>Card.Header\<close> without
  children leaves \<^verbatim>\<open>enhance\<close> with the child \<^verbatim>\<open>x\<close>.
\<close>

theorem matched_takes_injected_children:
  "propOf (Element (Component 1 (Some ''Card.Header'')) None fmempty) ''children'' = None \<and>
   enhance \<lparr>mapProps = Some (fmupd ''Card.Header'' (fmupd ''children'' (Text ''x'') fmempty) fmempty),
            props = None\<rparr>
     (Element (Component 1 (Some ''Card.Header'')) None fmempty)
   = Element (Component 1 (Some ''Card.Header'')) None (fmupd ''children'' (Text ''x'') fmempty) \<and>
   propOf
     (enhance \<lparr>mapProps = Some (fmupd ''Card.Header'' (fmupd ''children'' (Text ''x'') fmempty) fmempty),
               props = None\<rparr>
        (Element (Component 1 (Some ''Card.Header'')) None fmempty))
     ''children'' = Some (Text ''x'')"
  by (simp add: enhance.simps(8) inheritedProps_def childName_def hasKeys_def spread_def
        cloneElement_def cloneKey_def assignable_def reserved_def)

text \<open>
  C5, amended. A component element whose inherited props \<open>a\<close> have keys is returned
  as an element of the same type whose props are \<open>a\<close> merged under its own: every prop
  of the node with the node's value, and every other key of \<open>a\<close> that is not reserved
  with the value it has in \<open>a\<close>. \<^verbatim>\<open>enhance\<close> is not applied to anything below the
  node: when the node has a \<^verbatim>\<open>children\<close> prop, or \<open>a\<close> has no \<^verbatim>\<open>children\<close> key, the
  \<^verbatim>\<open>children\<close> of the result are those of the node, as they were.
\<close>

theorem matched_merges_without_descent:
  assumes "inheritedProps opts (childName displayName) = Some a" and "a \<noteq> fmempty"
  shows "\<exists>key' ps.
           enhance opts (Element (Component cid displayName) key own) =
             Element (Component cid displayName) key' ps \<and>
           (\<forall>k. fmlookup ps k =
                  (case fmlookup own k of
                     Some v \<Rightarrow> Some v
                   | None \<Rightarrow>
                       if k = ''key'' \<or> k = ''__self'' \<or> k = ''__source'' \<or>
                          (k = ''ref'' \<and> fmlookup a ''ref'' = Some Undefined)
                       then None else fmlookup a k)) \<and>
           ((fmlookup own ''children'' \<noteq> None \<or> fmlookup a ''children'' = None) \<longrightarrow>
              fmlookup ps ''children'' = fmlookup own ''children'')"
proof (intro exI conjI allI impI)
  show "enhance opts (Element (Component cid displayName) key own) =
          Element (Component cid displayName) (cloneKey key (a ++\<^sub>f own))
            (own ++\<^sub>f assignable (a ++\<^sub>f own))"
    by (simp add: enhance_matched [OF assms] cloneElement_def)
next
  fix k
  show "fmlookup (own ++\<^sub>f assignable (a ++\<^sub>f own)) k =
          (case fmlookup own k of
             Some v \<Rightarrow> Some v
           | None \<Rightarrow>
               if k = ''key'' \<or> k = ''__self'' \<or> k = ''__source'' \<or>
                  (k = ''ref'' \<and> fmlookup a ''ref'' = Some Undefined)
               then None else fmlookup a k)"
    by (simp only: own_over_assignable reserved_def)
next
  assume "fmlookup own ''children'' \<noteq> None \<or> fmlookup a ''children'' = None"
  then show "fmlookup (own ++\<^sub>f assignable (a ++\<^sub>f own)) ''children'' = fmlookup own ''children''"
    by (simp only: own_over_assignable) (auto simp: reserved_def split: option.splits)
qed

text \<open>
  The witness: a \<^verbatim>\<open>Card.Body\<close> inside a \<^verbatim>\<open>Card.Body\<close>, with \<^verbatim>\<open>id\<close> to inject into
  \<^verbatim>\<open>Card.Body\<close>. The outer one receives \<^verbatim>\<open>id\<close>; the inner one, which would match
  as well, is left as it was.
\<close>

theorem matched_merges_without_descent_witness:
  "enhance \<lparr>mapProps = Some (fmupd ''Card.Body'' (fmupd ''id'' (Text ''b'') fmempty) fmempty), props = None\<rparr>
     (Element (Component 2 (Some ''Card.Body'')) None
        (fmupd ''children'' (Element (Component 2 (Some ''Card.Body'')) None fmempty) fmempty))
   = Element (Component 2 (Some ''Card.Body'')) None
       (fmupd ''id'' (Text ''b'')
          (fmupd ''children'' (Element (Component 2 (Some ''Card.Body'')) None fmempty) fmempty))"
proof -
  have h1: "inheritedProps
              \<lparr>mapProps = Some (fmupd ''Card.Body'' (fmupd ''id'' (Text ''b'') fmempty) fmempty), props = None\<rparr>
              (childName (Some ''Card.Body'')) = Some (fmupd ''id'' (Text ''b'') fmempty)"
    by (simp add: inheritedProps_def childName_def)
  have h2: "fmupd ''id'' (Text ''b'') fmempty \<noteq> fmempty"
    by simp
  from matched_merges_without_descent [OF h1 h2, of 2 None
      "fmupd ''children'' (Element (Component 2 (Some ''Card.Body'')) None fmempty) fmempty"]
  obtain key' ps where
    e: "enhance \<lparr>mapProps = Some (fmupd ''Card.Body'' (fmupd ''id'' (Text ''b'') fmempty) fmempty), props = None\<rparr>
          (Element (Component 2 (Some ''Card.Body'')) None
             (fmupd ''children'' (Element (Component 2 (Some ''Card.Body'')) None fmempty) fmempty))
        = Element (Component 2 (Some ''Card.Body'')) key' ps"
    and l: "\<And>k. fmlookup ps k =
              (case fmlookup (fmupd ''children'' (Element (Component 2 (Some ''Card.Body'')) None fmempty) fmempty) k of
                 Some v \<Rightarrow> Some v
               | None \<Rightarrow>
                   if k = ''key'' \<or> k = ''__self'' \<or> k = ''__source'' \<or>
                      (k = ''ref'' \<and> fmlookup (fmupd ''id'' (Text ''b'') fmempty) ''ref'' = Some Undefined)
                   then None else fmlookup (fmupd ''id'' (Text ''b'') fmempty) k)"
    by blast
  have "ps = fmupd ''id'' (Text ''b'')
          (fmupd ''children'' (Element (Component 2 (Some ''Card.Body'')) None fmempty) fmempty)"
    by (rule fmap_ext) (auto simp: l)
  moreover have "key' = None"
    using e by (simp add: enhance.simps(8) inheritedProps_def childName_def hasKeys_def spread_def
        cloneElement_def cloneKey_def)
  ultimately show ?thesis
    using e by simp
qed

section \<open>Components without a display name in map mode\<close>



section \<open>Precedence of a component's own props\<close>

text \<open>
  C1, as it stands, fails on a reserved name. \<^verbatim>\<open>React.cloneElement\<close> does not copy
  \<^verbatim>\<open>key\<close> from its second argument into the props: an injected \<^verbatim>\<open>key\<close> that the
  node does not have becomes the key of the clone and is absent from the merged
  props.
\<close>

theorem reserved_key_not_merged:
  "fmlookup (fmupd ''key'' (Text ''k1'') (fmupd ''title'' (Text ''T'') fmempty)) ''key'' = Some (Text ''k1'') \<and>
   propOf (Element (Component 1 (Some ''Card.Header'')) None fmempty) ''key'' = None \<and>
   enhance \<lparr>mapProps = None,
            props = Some (fmupd ''key'' (Text ''k1'') (fmupd ''title'' (Text ''T'') fmempty))\<rparr>
     (Element (Component 1 (Some ''Card.Header'')) None fmempty)
   = Element (Component 1 (Some ''Card.Header'')) (Some ''k1'') (fmupd ''title'' (Text ''T'') fmempty) \<and>
   propOf
     (enhance \<lparr>mapProps = None,
               props = Some (fmupd ''key'' (Text ''k1'') (fmupd ''title'' (Text ''T'') fmempty))\<rparr>
        (Element (Component 1 (Some ''Card.Header'')) None fmempty))
     ''key'' = None"
  by (simp add: enhance.simps(8) inheritedProps_def childName_def hasKeys_def spread_def
        cloneElement_def cloneKey_def assignable_def reserved_def)

text \<open>
  C1, amended. For a component element whose inherited props \<open>a\<close> have keys, in either
  mode: every prop the node has keeps the node's value in the result, and every key
  of \<open>a\<close> that the node does not have and that is not reserved (\<^verbatim>\<open>key\<close>,
  \<^verbatim>\<open>__self\<close>, \<^verbatim>\<open>__source\<close>, or \<^verbatim>\<open>ref\<close> with the value \<^verbatim>\<open>undefined\<close>) is in the
  result with the value it has in \<open>a\<close>.
\<close>

theorem own_props_win:
  assumes "inheritedProps opts (childName displayName) = Some a" and "a \<noteq> fmempty"
  shows "(\<forall>k v. fmlookup own k = Some v \<longrightarrow>
            propOf (enhance opts (Element (Component cid displayName) key own)) k = Some v) \<and>
         (\<forall>k v. fmlookup a k = Some v \<and> fmlookup own k = None \<and> \<not> reserved a k \<longrightarrow>
            propOf (enhance opts (Element (Component cid displayName) key own)) k = Some v)"
proof -
  have "propOf (enhance opts (Element (Component cid displayName) key own)) k =
          fmlookup (own ++\<^sub>f assignable (a ++\<^sub>f own)) k" for k
    by (simp add: enhance_matched [OF assms] cloneElement_def)
  then show ?thesis
    by (simp only: own_over_assignable) simp
qed

theorem own_props_win_witness:
  "propOf
     (enhance \<lparr>mapProps = Some (fmupd ''Card.Header''
                  (fmupd ''title'' (Text ''Injected'') (fmupd ''id'' (Text ''h'') fmempty)) fmempty),
               props = None\<rparr>
        (Element (Component 1 (Some ''Card.Header'')) None (fmupd ''title'' (Text ''Child Prop'') fmempty)))
     ''title'' = Some (Text ''Child Prop'') \<and>
   propOf
     (enhance \<lparr>mapProps = Some (fmupd ''Card.Header''
                  (fmupd ''title'' (Text ''Injected'') (fmupd ''id'' (Text ''h'') fmempty)) fmempty),
               props = None\<rparr>
        (Element (Component 1 (Some ''Card.Header'')) None (fmupd ''title'' (Text ''Child Prop'') fmempty)))
     ''id'' = Some (Text ''h'')"
  using own_props_win [of
      "\<lparr>mapProps = Some (fmupd ''Card.Header''
                  (fmupd ''title'' (Text ''Injected'') (fmupd ''id'' (Text ''h'') fmempty)) fmempty),
               props = None\<rparr>"
      "Some ''Card.Header''"
      "fmupd ''title'' (Text ''Injected'') (fmupd ''id'' (Text ''h'') fmempty)"
      "fmupd ''title'' (Text ''Child Prop'') fmempty" 1 None]
  by (simp add: inheritedProps_def childName_def reserved_def)

section \<open>Map mode and components without a display name\<close>

text \<open>
  C3 says that in map mode a component without a label is never augmented. The code
  looks such a component up under the empty string, so with an entry under the empty
  string it is augmented: here a component without \<^verbatim>\<open>displayName\<close> receives
  \<^verbatim>\<open>title\<close>, next to a \<^verbatim>\<open>Card.Header\<close> that has no entry and receives nothing.
\<close>

theorem unlabelled_component_augmented:
  "useEnhanceChildren
     (Array [Element (Component 9 None) None fmempty,
             Element (Component 1 (Some ''Card.Header'')) None fmempty])
     \<lparr>mapProps = Some (fmupd [] (fmupd ''title'' (Text ''Test Title'') fmempty) fmempty),
      props = None\<rparr>
   = Array [Element (Component 9 None) (Some ''.0'') (fmupd ''title'' (Text ''Test Title'') fmempty),
            Element (Component 1 (Some ''Card.Header'')) (Some ''.1'') fmempty]"
  by (simp add: useEnhanceChildren_def mapChildren_enhance enhance.simps(8) inheritedProps_def
        childName_def hasKeys_def spread_def cloneElement_def cloneKey_def assignable_def
        reserved_def digit36_def)

section \<open>Broadcast mode\<close>

text \<open>
  C4 says that in broadcast mode every eligible element anywhere in the input tree
  receives the configured set. The code clones the first component element it meets
  and returns, without visiting that element's children. With
  \<^verbatim>\<open>props = {title: 'T'}\<close>, a \<^verbatim>\<open>Card.Body\<close> whose child is a \<^verbatim>\<open>Card.Header\<close>
  receives \<^verbatim>\<open>title\<close>; the nested \<^verbatim>\<open>Card.Header\<close>, an eligible element of the input
  tree, is returned as it was.
\<close>

theorem broadcast_skips_nested:
  "useEnhanceChildren
     (Element (Component 2 (Some ''Card.Body'')) None
        (fmupd ''children'' (Element (Component 1 (Some ''Card.Header'')) None fmempty) fmempty))
     \<lparr>mapProps = None, props = Some (fmupd ''title'' (Text ''T'') fmempty)\<rparr>
   = Array [Element (Component 2 (Some ''Card.Body'')) (Some ''.0'')
             (fmupd ''title'' (Text ''T'')
                (fmupd ''children'' (Element (Component 1 (Some ''Card.Header'')) None fmempty) fmempty))]"
  by (simp add: useEnhanceChildren_def mapChildren_enhance enhance.simps(8) inheritedProps_def
        childName_def hasKeys_def spread_def cloneElement_def cloneKey_def assignable_def
        reserved_def digit36_def)
     (auto intro!: fmap_ext)

text \<open>
  The same on children wrapped in a fragment. The type of a fragment is not a string
  and has no \<^verbatim>\<open>displayName\<close>: it is a component without a name here (number 0).
  The fragment receives \<^verbatim>\<open>title\<close> and the elements inside it receive nothing.
\<close>

lemma broadcast_stops_at_fragment:
  "useEnhanceChildren
     (Element (Component 0 None) None
        (fmupd ''children''
           (Array [Element (Component 1 (Some ''Card.Header'')) None fmempty,
                   Element (Component 3 (Some ''Card.Footer'')) None fmempty])
           fmempty))
     \<lparr>mapProps = None, props = Some (fmupd ''title'' (Text ''T'') fmempty)\<rparr>
   = Array [Element (Component 0 None) (Some ''.0'')
             (fmupd ''title'' (Text ''T'')
                (fmupd ''children''
                   (Array [Element (Component 1 (Some ''Card.Header'')) None fmempty,
                           Element (Component 3 (Some ''Card.Footer'')) None fmempty])
                   fmempty))]"
  by (simp add: useEnhanceChildren_def mapChildren_enhance enhance.simps(8) inheritedProps_def
        childName_def hasKeys_def spread_def cloneElement_def cloneKey_def assignable_def
        reserved_def digit36_def)
     (auto intro!: fmap_ext)

section \<open>Unmatched components\<close>

text \<open>
  C6, as it stands, fails: the new children are not the old ones with each child
  processed, they are what \<^verbatim>\<open>React.Children.map\<close> returns. For a \<^verbatim>\<open>Card.Body\<close>
  whose only child is the string \<^verbatim>\<open>x\<close>, \<^verbatim>\<open>enhance\<close> leaves the string as it is,
  and yet the result differs from the original: its children are the array
  \<^verbatim>\<open>['x']\<close>.
\<close>

theorem single_child_wrapped:
  "enhance \<lparr>mapProps = Some fmempty, props = None\<rparr> (Text ''x'') = Text ''x'' \<and>
   enhance \<lparr>mapProps = Some fmempty, props = None\<rparr>
     (Element (Component 2 (Some ''Card.Body'')) None (fmupd ''children'' (Text ''x'') fmempty))
   = Element (Component 2 (Some ''Card.Body'')) None (fmupd ''children'' (Array [Text ''x'']) fmempty) \<and>
   enhance \<lparr>mapProps = Some fmempty, props = None\<rparr>
     (Element (Component 2 (Some ''Card.Body'')) None (fmupd ''children'' (Text ''x'') fmempty))
   \<noteq> Element (Component 2 (Some ''Card.Body'')) None (fmupd ''children'' (Text ''x'') fmempty)"
proof -
  have e: "enhance \<lparr>mapProps = Some fmempty, props = None\<rparr>
     (Element (Component 2 (Some ''Card.Body'')) None (fmupd ''children'' (Text ''x'') fmempty))
   = Element (Component 2 (Some ''Card.Body'')) None (fmupd ''children'' (Array [Text ''x'']) fmempty)"
    by (simp add: enhance_unmatched_children inheritedProps_def childName_def hasKeys_def
        cloneKey_def mapChildren_enhance)
  have "fmlookup (fmupd ''children'' (Array [Text ''x'']) fmempty) ''children'' \<noteq>
        fmlookup (fmupd ''children'' (Text ''x'') fmempty :: attrs) ''children''"
    by simp
  then have "fmupd ''children'' (Array [Text ''x'']) fmempty \<noteq> (fmupd ''children'' (Text ''x'') fmempty :: attrs)"
    by metis
  with e show ?thesis
    by simp
qed

text \<open>
  C6, amended. Take a component element without inherited props (none, or a set
  without keys) and without a \<^verbatim>\<open>key\<close> among its props (React keeps the key of an
  element apart from its props). When its \<^verbatim>\<open>children\<close> prop is truthy, the result is
  the same element with that prop replaced by \<^verbatim>\<open>React.Children.map(children, enhance)\<close>:
  the flat array of the results of \<^verbatim>\<open>enhance\<close> on each child, in the order of the
  children, where nested arrays are flattened, a single child gives an array of one,
  results that are \<^verbatim>\<open>null\<close> or \<^verbatim>\<open>undefined\<close> are left out and elements get new
  keys. When it has no \<^verbatim>\<open>children\<close> prop, or a falsy one, the element is returned as
  it is.
\<close>

theorem unmatched_recurses_into_children:
  assumes "\<not> hasKeys (inheritedProps opts (childName displayName))"
    and "fmlookup own ''key'' = None"
  shows "(\<forall>c. fmlookup own ''children'' = Some c \<and> truthy c \<longrightarrow>
            enhance opts (Element (Component cid displayName) key own) =
              Element (Component cid displayName) key
                (fmupd ''children''
                   (Array (concat (map (\<lambda>(name, child). pushMapped [] name child (enhance opts child))
                                       (traverse [] c))))
                   own)) \<and>
         ((case fmlookup own ''children'' of None \<Rightarrow> True | Some c \<Rightarrow> \<not> truthy c) \<longrightarrow>
            enhance opts (Element (Component cid displayName) key own) =
              Element (Component cid displayName) key own)"
proof (intro conjI allI impI)
  fix c
  assume c: "fmlookup own ''children'' = Some c \<and> truthy c"
  then have "c \<noteq> Null" "c \<noteq> Undefined"
    by auto
  with c assms show "enhance opts (Element (Component cid displayName) key own) =
      Element (Component cid displayName) key
        (fmupd ''children''
           (Array (concat (map (\<lambda>(name, child). pushMapped [] name child (enhance opts child))
                               (traverse [] c))))
           own)"
    by (simp add: enhance_unmatched_children mapChildren_enhance cloneKey_def)
next
  assume "case fmlookup own ''children'' of None \<Rightarrow> True | Some c \<Rightarrow> \<not> truthy c"
  with assms show "enhance opts (Element (Component cid displayName) key own) =
      Element (Component cid displayName) key own"
    by (simp add: enhance_unmatched_leaf)
qed

theorem unmatched_recurses_into_children_witness:
  "enhance \<lparr>mapProps = Some (fmupd ''Card.Header'' (fmupd ''title'' (Text ''Parent Title'') fmempty) fmempty),
            props = None\<rparr>
     (Element (Component 2 (Some ''Card.Body'')) None
        (fmupd ''children''
           (Array [Element (Component 1 (Some ''Card.Header'')) None fmempty, Null, Text ''x''])
           fmempty))
   = Element (Component 2 (Some ''Card.Body'')) None
       (fmupd ''children''
          (Array [Element (Component 1 (Some ''Card.Header'')) (Some ''.0'')
                    (fmupd ''title'' (Text ''Parent Title'') fmempty),
                  Text ''x''])
          fmempty) \<and>
   enhance \<lparr>mapProps = Some (fmupd ''Card.Header'' (fmupd ''title'' (Text ''Parent Title'') fmempty) fmempty),
            props = None\<rparr>
     (Element (Component 2 (Some ''Card.Body'')) None fmempty)
   = Element (Component 2 (Some ''Card.Body'')) None fmempty"
  using unmatched_recurses_into_children [of
      "\<lparr>mapProps = Some (fmupd ''Card.Header'' (fmupd ''title'' (Text ''Parent Title'') fmempty) fmempty),
        props = None\<rparr>"
      "Some ''Card.Body''"
      "fmupd ''children''
           (Array [Element (Component 1 (Some ''Card.Header'')) None fmempty, Null, Text ''x''])
           fmempty" 2 None]
    unmatched_recurses_into_children [of
      "\<lparr>mapProps = Some (fmupd ''Card.Header'' (fmupd ''title'' (Text ''Parent Title'') fmempty) fmempty),
        props = None\<rparr>"
      "Some ''Card.Body''" fmempty 2 None]
  by (simp add: inheritedProps_def childName_def hasKeys_def enhance_matched cloneElement_def
        cloneKey_def assignable_def reserved_def digit36_def)

section \<open>Options with both fields\<close>

lemma inheritedProps_mapProps:
  "inheritedProps \<lparr>mapProps = Some m, props = p\<rparr> name = fmlookup m name"
  by (simp add: inheritedProps_def)

lemma enhance_ignores_props:
  "enhance \<lparr>mapProps = Some m, props = p\<rparr> child = enhance \<lparr>mapProps = Some m, props = q\<rparr> child"
proof (induction "\<lparr>mapProps = Some m, props = p\<rparr>" child rule: enhance.induct)
  case (8 cid displayName key childProps)
  show ?case
  proof (cases "hasKeys (fmlookup m (childName displayName))")
    case True
    then show ?thesis
      by (simp add: enhance.simps(8) inheritedProps_mapProps)
  next
    case False
    show ?thesis
    proof (cases "fmlookup childProps ''children''")
      case None
      with False show ?thesis
        by (simp add: enhance.simps(8) inheritedProps_mapProps)
    next
      case (Some c)
      show ?thesis
      proof (cases "truthy c")
        case True
        have "mapChildren (enhance \<lparr>mapProps = Some m, props = p\<rparr>) c =
              mapChildren (enhance \<lparr>mapProps = Some m, props = q\<rparr>) c"
          by (rule mapChildren_cong [OF refl])
             (use 8 False Some True in \<open>simp add: inheritedProps_mapProps\<close>)
        with False Some True show ?thesis
          by (simp add: enhance.simps(8) inheritedProps_mapProps)
      next
        case falsy: False
        with False Some show ?thesis
          by (simp add: enhance.simps(8) inheritedProps_mapProps)
      qed
    qed
  qed
qed simp_all

text \<open>
  C8. With \<^verbatim>\<open>mapProps\<close> present, the \<^verbatim>\<open>props\<close> field is never read: options with
  both fields give the results of the same options without \<^verbatim>\<open>props\<close>, for the
  callback and for the hook.
\<close>

theorem mapProps_shadows_props:
  "enhance \<lparr>mapProps = Some m, props = Some p\<rparr> child =
     enhance \<lparr>mapProps = Some m, props = None\<rparr> child \<and>
   useEnhanceChildren children \<lparr>mapProps = Some m, props = Some p\<rparr> =
     useEnhanceChildren children \<lparr>mapProps = Some m, props = None\<rparr>"
proof -
  have "enhance \<lparr>mapProps = Some m, props = Some p\<rparr> = enhance \<lparr>mapProps = Some m, props = None\<rparr>"
    by (rule ext) (rule enhance_ignores_props)
  then show ?thesis
    by (simp add: useEnhanceChildren_def)
qed

section \<open>Shape of the result\<close>

text \<open>
  C2, as it stands, fails: \<^verbatim>\<open>React.Children.map\<close> drops the results that are
  \<^verbatim>\<open>null\<close> or \<^verbatim>\<open>undefined\<close> and flattens nested arrays. The input below is a
  list of a string, \<^verbatim>\<open>null\<close> and a nested list; the output is a list of the two
  strings: the \<^verbatim>\<open>null\<close> between them is gone, and so are the nested list and its
  \<^verbatim>\<open>undefined\<close> member.
\<close>

theorem empty_members_dropped:
  "useEnhanceChildren (Array [Text ''a'', Null, Array [Undefined, Text ''b'']])
     \<lparr>mapProps = Some fmempty, props = None\<rparr>
   = Array [Text ''a'', Text ''b'']"
  by (simp add: useEnhanceChildren_def mapChildren_enhance)

text \<open>
  A \<^verbatim>\<open>children\<close> key among the inherited props adds nodes as well: a matched
  element without children receives them.
\<close>

lemma injected_children_add_nodes:
  "useEnhanceChildren (Element (Component 1 (Some ''Card.Header'')) None fmempty)
     \<lparr>mapProps = Some (fmupd ''Card.Header'' (fmupd ''children'' (Text ''x'') fmempty) fmempty),
      props = None\<rparr>
   = Array [Element (Component 1 (Some ''Card.Header'')) (Some ''.0'')
             (fmupd ''children'' (Text ''x'') fmempty)]"
  by (simp add: useEnhanceChildren_def mapChildren_enhance enhance.simps(8) inheritedProps_def
        childName_def hasKeys_def spread_def cloneElement_def cloneKey_def assignable_def
        reserved_def digit36_def)

lemma outline_perceived: "outline (perceived x) = outline x"
  by (cases x) simp_all

lemma outline_traverse:
  "concat (map (\<lambda>(name, x). outline x) (traverse nm c)) = outline c"
  "concat (map (\<lambda>(name, x). outline x) (traverseArray pre i cs)) = concat (map outline cs)"
  by (induction nm c and pre i cs rule: traverse_traverseArray.induct) simp_all

lemma outline_pushMapped: "concat (map outline (pushMapped p name x z)) = outline z"
  by (cases z) simp_all

lemma concat_map_concat:
  "concat (map f (concat (map g xs))) = concat (map (\<lambda>x. concat (map f (g x))) xs)"
  by (induction xs) simp_all

lemma outline_mapChildren:
  assumes "\<And>name x. (name, x) \<in> set (traverse [] c) \<Longrightarrow> outline (enhance opts x) = outline x"
  shows "outline (mapChildren (enhance opts) c) = outline c"
proof (cases "c = Null \<or> c = Undefined")
  case True
  then show ?thesis
    by (auto simp: mapChildren_enhance)
next
  case False
  have "concat (map outline (concat (map (\<lambda>(name, child). pushMapped [] name child (enhance opts child))
                                       (traverse [] c))))
      = concat (map (\<lambda>(name, child). outline (enhance opts child)) (traverse [] c))"
    by (simp add: concat_map_concat case_prod_unfold outline_pushMapped)
  also have "\<dots> = concat (map (\<lambda>(name, x). outline x) (traverse [] c))"
    by (rule arg_cong [where f = concat], rule map_cong) (auto simp: assms)
  finally show ?thesis
    using False by (simp add: mapChildren_enhance outline_traverse)
qed

lemma outline_enhance:
  "(\<And>name a. inheritedProps opts name = Some a \<Longrightarrow> fmlookup a ''children'' = None) \<Longrightarrow>
   outline (enhance opts child) = outline child"
proof (induction opts child rule: enhance.induct)
  case (8 opts cid displayName key childProps)
  note H = "8.prems"
  show ?case
  proof (cases "hasKeys (inheritedProps opts (childName displayName))")
    case True
    then obtain a where a: "inheritedProps opts (childName displayName) = Some a" "a \<noteq> fmempty"
      by (auto simp: hasKeys_def split: option.splits)
    have "fmlookup a ''children'' = None"
      using H a(1) by blast
    then have "fmlookup (childProps ++\<^sub>f assignable (a ++\<^sub>f childProps)) ''children'' =
               fmlookup childProps ''children''"
      by (simp only: own_over_assignable) (simp split: option.splits)
    then show ?thesis
      by (simp add: enhance_matched [OF a] cloneElement_def)
  next
    case False
    show ?thesis
    proof (cases "fmlookup childProps ''children''")
      case None
      with False show ?thesis
        by (simp add: enhance_unmatched_leaf)
    next
      case (Some c)
      show ?thesis
      proof (cases "truthy c")
        case True
        have "outline (mapChildren (enhance opts) c) = outline c"
          by (rule outline_mapChildren) (rule "8.IH" [OF False Some True _ H])
        with False Some True show ?thesis
          by (simp add: enhance_unmatched_children)
      next
        case falsy: False
        with False Some show ?thesis
          by (simp add: enhance_unmatched_leaf)
      qed
    qed
  qed
qed simp_all

lemma traverse_leaf:
  "(name, x) \<in> set (traverse nm c) \<Longrightarrow> x = Null \<or> solid x"
  "(name, x) \<in> set (traverseArray pre i cs) \<Longrightarrow> x = Null \<or> solid x"
  by (induction nm c and pre i cs rule: traverse_traverseArray.induct) auto

lemma enhance_solid: "solid (enhance opts x) = solid x"
  by (cases "(opts, x)" rule: enhance.cases)
     (auto simp: enhance.simps(8) cloneElement_def split: option.splits)

lemma pushMapped_solid: "z = Null \<or> solid z \<Longrightarrow> list_all solid (pushMapped p name x z)"
  by (cases z) auto

lemma list_all_concat: "list_all P (concat xss) = list_all (list_all P) xss"
  by (induction xss) simp_all

lemma flatArray_mapChildren:
  "c \<noteq> Null \<Longrightarrow> c \<noteq> Undefined \<Longrightarrow> flatArray (mapChildren (enhance opts) c)"
proof -
  assume "c \<noteq> Null" "c \<noteq> Undefined"
  moreover have "list_all solid (pushMapped [] name x (enhance opts x))"
    if "(name, x) \<in> set (traverse [] c)" for name x
  proof -
    from that have "x = Null \<or> solid x" by (rule traverse_leaf(1))
    then have "enhance opts x = Null \<or> solid (enhance opts x)"
      by (auto simp: enhance_solid)
    then show ?thesis by (rule pushMapped_solid)
  qed
  ultimately show ?thesis
    by (auto simp: mapChildren_enhance list_all_concat list_all_iff)
qed

text \<open>
  C2, amended. When no inherited props hold a \<^verbatim>\<open>children\<close> key, the result of the
  hook has the outline of its input: the same non-empty nodes, in the same order and
  with the same nesting, each element with its type and each string and number with
  its value. Arrays are read as the sequence of their members and empty values are left
  out, for the result is flat: \<^verbatim>\<open>null\<close> and \<^verbatim>\<open>undefined\<close> are returned as they
  are, and any other input gives an array of non-empty nodes.
\<close>

theorem outline_preserved:
  assumes "\<And>name a. inheritedProps opts name = Some a \<Longrightarrow> fmlookup a ''children'' = None"
  shows "outline (useEnhanceChildren children opts) = outline children \<and>
         (if children = Null \<or> children = Undefined
          then useEnhanceChildren children opts = children
          else flatArray (useEnhanceChildren children opts))"
proof -
  have "outline (mapChildren (enhance opts) children) = outline children"
    by (rule outline_mapChildren) (rule outline_enhance [OF assms])
  moreover have "mapChildren (enhance opts) children = children"
    if "children = Null \<or> children = Undefined"
    using that by (auto simp: mapChildren_enhance)
  ultimately show ?thesis
    by (simp add: useEnhanceChildren_def flatArray_mapChildren)
qed

theorem outline_preserved_witness:
  "outline (useEnhanceChildren
      (Array [Element (Component 1 (Some ''Card.Header'')) None fmempty, Null,
              Element (Component 2 (Some ''Card.Body'')) None (fmupd ''children'' (Text ''x'') fmempty)])
      \<lparr>mapProps = Some (fmupd ''Card.Header'' (fmupd ''title'' (Text ''T'') fmempty) fmempty), props = None\<rparr>)
   = [ElementShape (Component 1 (Some ''Card.Header'')) [],
      ElementShape (Component 2 (Some ''Card.Body'')) [TextShape ''x'']] \<and>
   flatArray (useEnhanceChildren
      (Array [Element (Component 1 (Some ''Card.Header'')) None fmempty, Null,
              Element (Component 2 (Some ''Card.Body'')) None (fmupd ''children'' (Text ''x'') fmempty)])
      \<lparr>mapProps = Some (fmupd ''Card.Header'' (fmupd ''title'' (Text ''T'') fmempty) fmempty), props = None\<rparr>)"
proof -
  have h: "\<And>name a. inheritedProps
              \<lparr>mapProps = Some (fmupd ''Card.Header'' (fmupd ''title'' (Text ''T'') fmempty) fmempty),
               props = None\<rparr> name = Some a \<Longrightarrow> fmlookup a ''children'' = None"
    by (auto simp: inheritedProps_def split: if_splits)
  show ?thesis
    using outline_preserved [OF h,
        where children = "Array [Element (Component 1 (Some ''Card.Header'')) None fmempty, Null,
              Element (Component 2 (Some ''Card.Body'')) None (fmupd ''children'' (Text ''x'') fmempty)]"]
    by simp
qed

section \<open>Applying the hook twice\<close>

lemma stripKeys_Undefined: "stripKeys v = Undefined \<longleftrightarrow> v = Undefined"
  by (cases v) simp_all

lemma stripKeys_Null: "stripKeys v = Null \<longleftrightarrow> v = Null"
  by (cases v) simp_all

lemma truthy_stripKeys: "truthy (stripKeys v) = truthy v"
  by (cases v) simp_all

lemma solid_stripKeys: "solid (stripKeys v) = solid v"
  by (cases v) simp_all

lemma perceived_stripKeys: "stripKeys (perceived v) = perceived (stripKeys v)"
  by (cases v) simp_all

lemma fmmap_add: "fmmap f (m ++\<^sub>f n) = fmmap f m ++\<^sub>f fmmap f n"
  by (rule fmap_ext) (simp add: fmlookup_dom_iff)

lemma reserved_fmmap: "reserved (fmmap stripKeys config) name = reserved config name"
  by (auto simp: reserved_def stripKeys_Undefined)

lemma assignable_fmmap: "fmmap stripKeys (assignable config) = assignable (fmmap stripKeys config)"
  by (rule fmap_ext) (simp add: assignable_def reserved_fmmap)

lemma stripKeys_cloneElement:
  "stripKeys (cloneElement ty key own config) =
     Element ty None (fmmap stripKeys own ++\<^sub>f assignable (fmmap stripKeys config))"
  by (simp add: cloneElement_def fmmap_add assignable_fmmap)

lemma stripKeys_pushMapped:
  "map stripKeys (pushMapped p name x z) =
     (if z = Null \<or> z = Undefined then [] else [stripKeys z])"
  by (cases z) simp_all

lemma stripKeys_eq_Element:
  "stripKeys y = Element ty None ps \<longleftrightarrow> (\<exists>key own. y = Element ty key own \<and> fmmap stripKeys own = ps)"
  by (cases y) auto

text \<open>Two traversals of values that agree up to keys call the callback on values that agree up to keys.\<close>

lemma traverse_stripKeys:
  "stripKeys c = stripKeys c' \<Longrightarrow>
     list_all2 (\<lambda>p q. stripKeys (snd p) = stripKeys (snd q)) (traverse nm c) (traverse nm' c')"
  "map stripKeys cs = map stripKeys cs' \<Longrightarrow>
     list_all2 (\<lambda>p q. stripKeys (snd p) = stripKeys (snd q))
       (traverseArray pre i cs) (traverseArray pre' i' cs')"
proof (induction nm c and pre i cs arbitrary: nm' c' and pre' i' cs' rule: traverse_traverseArray.induct)
  case (1 nameSoFar xs)
  from "1.prems" obtain ys where "c' = Array ys" "map stripKeys xs = map stripKeys ys"
    by (cases c') auto
  with 1 show ?case by simp
next
  case (4 nextNamePrefix i x xs)
  from "4.prems" obtain y ys where "cs' = y # ys" "stripKeys x = stripKeys y" "map stripKeys xs = map stripKeys ys"
    by (cases cs') auto
  with 4 show ?case
    by (auto intro!: list_all2_appendI)
qed (case_tac c'; simp; fail)+


lemma list_all2_map_eq:
  "list_all2 R xs ys \<Longrightarrow> (\<And>x y. x \<in> set xs \<Longrightarrow> R x y \<Longrightarrow> f x = g y) \<Longrightarrow> map f xs = map g ys"
  by (induction rule: list_all2_induct) auto

lemma stripKeys_mapChildren:
  "stripKeys (mapChildren (enhance opts) c) =
     (if c = Null \<or> c = Undefined then c
      else Array (concat (map (\<lambda>(name, x).
                                 if enhance opts x = Null \<or> enhance opts x = Undefined then []
                                 else [stripKeys (enhance opts x)])
                              (traverse [] c))))"
  by (auto simp: mapChildren_enhance map_concat comp_def case_prod_unfold stripKeys_pushMapped)

text \<open>The hook on values that agree up to keys.\<close>

lemma mapChildren_respects_keys:
  assumes "stripKeys c = stripKeys c'"
    and IH: "\<And>name x y. (name, x) \<in> set (traverse [] c) \<Longrightarrow> stripKeys x = stripKeys y \<Longrightarrow>
               stripKeys (enhance opts x) = stripKeys (enhance opts y)"
  shows "stripKeys (mapChildren (enhance opts) c) = stripKeys (mapChildren (enhance opts) c')"
proof -
  have empty: "(c = Null) = (c' = Null)" "(c = Undefined) = (c' = Undefined)"
    using assms(1) by (metis stripKeys_Null, metis stripKeys_Undefined)
  have rel: "list_all2 (\<lambda>p q. stripKeys (snd p) = stripKeys (snd q)) (traverse [] c) (traverse [] c')"
    using assms(1) by (rule traverse_stripKeys(1))
  have "map (\<lambda>(name, x). if enhance opts x = Null \<or> enhance opts x = Undefined then []
                           else [stripKeys (enhance opts x)]) (traverse [] c)
      = map (\<lambda>(name, x). if enhance opts x = Null \<or> enhance opts x = Undefined then []
                           else [stripKeys (enhance opts x)]) (traverse [] c')"
  proof (rule list_all2_map_eq [OF rel])
    fix p q
    assume p: "p \<in> set (traverse [] c)"
      and pq: "stripKeys (snd p) = stripKeys (snd q)"
    obtain n x n' y where [simp]: "p = (n, x)" "q = (n', y)"
      by (cases p, cases q) auto
    from p pq have e: "stripKeys (enhance opts x) = stripKeys (enhance opts y)"
      by (auto intro: IH)
    then have "(enhance opts x = Null \<or> enhance opts x = Undefined) =
               (enhance opts y = Null \<or> enhance opts y = Undefined)"
      by (metis stripKeys_Null stripKeys_Undefined)
    with e show "(case p of (name, x) \<Rightarrow> if enhance opts x = Null \<or> enhance opts x = Undefined then []
                           else [stripKeys (enhance opts x)])
               = (case q of (name, x) \<Rightarrow> if enhance opts x = Null \<or> enhance opts x = Undefined then []
                           else [stripKeys (enhance opts x)])"
      by simp
  qed
  with empty assms(1) show ?thesis
    by (simp add: stripKeys_mapChildren)
qed

lemma fmmap_fmupd: "fmmap f (fmupd k v m) = fmupd k (f v) (fmmap f m)"
  by (rule fmap_ext) simp

lemma fmlookup_stripKeys_eq:
  "fmmap stripKeys own' = fmmap stripKeys own \<Longrightarrow>
   map_option stripKeys (fmlookup own' k) = map_option stripKeys (fmlookup own k)"
  by (metis fmlookup_map)

text \<open>(A) \<^verbatim>\<open>enhance\<close> on values that agree up to keys.\<close>

lemma enhance_respects_keys:
  "stripKeys x = stripKeys y \<Longrightarrow> stripKeys (enhance opts x) = stripKeys (enhance opts y)"
proof (induction opts x arbitrary: y rule: enhance.induct)
  case (6 opts xs)
  then show ?case by (cases y) auto
next
  case (7 opts tag key childProps)
  then show ?case by (cases y) auto
next
  case (8 opts cid displayName key own)
  from "8.prems" obtain key' own' where y: "y = Element (Component cid displayName) key' own'"
    and own': "fmmap stripKeys own' = fmmap stripKeys own"
    by (cases y) auto
  show ?case
  proof (cases "hasKeys (inheritedProps opts (childName displayName))")
    case True
    then obtain a where a: "inheritedProps opts (childName displayName) = Some a" "a \<noteq> fmempty"
      by (auto simp: hasKeys_def split: option.splits)
    show ?thesis
      by (simp add: y enhance_matched [OF a] stripKeys_cloneElement fmmap_add own')
  next
    case False
    have ch: "map_option stripKeys (fmlookup own' ''children'') =
              map_option stripKeys (fmlookup own ''children'')"
      using own' by (rule fmlookup_stripKeys_eq)
    show ?thesis
    proof (cases "fmlookup own ''children''")
      case None
      with ch have "fmlookup own' ''children'' = None" by simp
      with None False own' show ?thesis
        by (simp add: y enhance_unmatched_leaf)
    next
      case (Some c)
      with ch obtain c' where c': "fmlookup own' ''children'' = Some c'" "stripKeys c' = stripKeys c"
        by auto
      then have t: "truthy c' = truthy c"
        by (metis truthy_stripKeys)
      show ?thesis
      proof (cases "truthy c")
        case True
        have "stripKeys (mapChildren (enhance opts) c) = stripKeys (mapChildren (enhance opts) c')"
          by (rule mapChildren_respects_keys)
             (use c'(2) "8.IH" [OF False Some True] in auto)
        with False Some c' t True own' show ?thesis
          by (simp add: y enhance_unmatched_children fmmap_fmupd)
      next
        case falsy: False
        with False Some c' t own' show ?thesis
          by (simp add: y enhance_unmatched_leaf)
      qed
    qed
  qed
qed (case_tac y; simp; fail)+


text \<open>Cloning a clone with the same inherited props changes no prop.\<close>

lemma assignable_again:
  "(own ++\<^sub>f assignable (a ++\<^sub>f own)) ++\<^sub>f
     assignable (a ++\<^sub>f (own ++\<^sub>f assignable (a ++\<^sub>f own))) =
   own ++\<^sub>f assignable (a ++\<^sub>f own)"
proof (rule fmap_ext)
  fix k
  show "fmlookup ((own ++\<^sub>f assignable (a ++\<^sub>f own)) ++\<^sub>f
          assignable (a ++\<^sub>f (own ++\<^sub>f assignable (a ++\<^sub>f own)))) k =
        fmlookup (own ++\<^sub>f assignable (a ++\<^sub>f own)) k"
    by (simp only: own_over_assignable) (simp split: option.splits)
qed

lemma traverseArray_solid:
  "list_all solid ys \<Longrightarrow> map snd (traverseArray pre i ys) = ys"
proof (induction ys arbitrary: i)
  case Nil
  then show ?case by simp
next
  case (Cons y ys)
  then show ?case by (cases y) simp_all
qed

lemma concat_singletons: "concat (map (\<lambda>x. [f x]) xs) = map f xs"
  by (induction xs) simp_all

text \<open>The hook on a flat array whose members \<^verbatim>\<open>enhance\<close> leaves as they are, up to keys.\<close>

lemma mapChildren_flat:
  assumes "\<And>y. y \<in> set ys \<Longrightarrow> solid y \<and> stripKeys (enhance opts y) = stripKeys y"
  shows "stripKeys (mapChildren (enhance opts) (Array ys)) = Array (map stripKeys ys)"
proof -
  have flat: "list_all solid ys"
    using assms by (simp add: list_all_iff)
  have eq: "map (\<lambda>(name, x). if enhance opts x = Null \<or> enhance opts x = Undefined then []
                           else [stripKeys (enhance opts x)]) (traverseArray ''.'' 0 ys)
      = map (\<lambda>p. [stripKeys (snd p)]) (traverseArray ''.'' 0 ys)"
  proof (rule map_cong [OF refl])
    fix p
    assume "p \<in> set (traverseArray ''.'' 0 ys)"
    then have "snd p \<in> set (map snd (traverseArray ''.'' 0 ys))"
      by auto
    then have "snd p \<in> set ys"
      by (simp only: traverseArray_solid [OF flat])
    then have y: "solid (snd p)" "stripKeys (enhance opts (snd p)) = stripKeys (snd p)"
      using assms by auto
    then have "solid (enhance opts (snd p))"
      by (simp add: enhance_solid)
    then have "enhance opts (snd p) \<noteq> Null" "enhance opts (snd p) \<noteq> Undefined"
      by auto
    with y show "(case p of (name, x) \<Rightarrow> if enhance opts x = Null \<or> enhance opts x = Undefined then []
                           else [stripKeys (enhance opts x)]) = [stripKeys (snd p)]"
      by (simp add: case_prod_unfold)
  qed
  have "concat (map (\<lambda>(name, x). if enhance opts x = Null \<or> enhance opts x = Undefined then []
                           else [stripKeys (enhance opts x)]) (traverseArray ''.'' 0 ys))
      = concat (map (\<lambda>p. [stripKeys (snd p)]) (traverseArray ''.'' 0 ys))"
    by (simp only: eq)
  also have "\<dots> = map stripKeys (map snd (traverseArray ''.'' 0 ys))"
    by (simp add: concat_singletons comp_def)
  finally have "concat (map (\<lambda>(name, x). if enhance opts x = Null \<or> enhance opts x = Undefined then []
                           else [stripKeys (enhance opts x)]) (traverseArray ''.'' 0 ys))
      = map stripKeys (map snd (traverseArray ''.'' 0 ys))" .
  then show ?thesis
    by (simp add: stripKeys_mapChildren traverseArray_solid [OF flat])
qed

text \<open>What the hook pushes for a child on which \<^verbatim>\<open>enhance\<close> is idempotent up to keys.\<close>

lemma pushMapped_fixed:
  assumes leaf: "x = Null \<or> solid x"
    and idem: "stripKeys (enhance opts (enhance opts x)) = stripKeys (enhance opts x)"
    and y: "y \<in> set (pushMapped p name x (enhance opts x))"
  shows "solid y \<and> stripKeys (enhance opts y) = stripKeys y"
proof -
  from leaf have z: "enhance opts x = Null \<or> solid (enhance opts x)"
    by (auto simp: enhance_solid)
  have "stripKeys y = stripKeys (enhance opts x)"
    using y z by (cases "enhance opts x") auto
  moreover from this have "stripKeys (enhance opts y) = stripKeys (enhance opts (enhance opts x))"
    by (rule enhance_respects_keys)
  moreover have "solid y"
    using y z by (cases "enhance opts x") auto
  ultimately show ?thesis
    using idem by simp
qed

lemma mapChildren_idem:
  assumes "\<And>name x. (name, x) \<in> set (traverse [] c) \<Longrightarrow>
             stripKeys (enhance opts (enhance opts x)) = stripKeys (enhance opts x)"
  shows "stripKeys (mapChildren (enhance opts) (mapChildren (enhance opts) c)) =
         stripKeys (mapChildren (enhance opts) c)"
proof (cases "c = Null \<or> c = Undefined")
  case True
  then show ?thesis
    by (auto simp: mapChildren_enhance)
next
  case False
  define ys where "ys = concat (map (\<lambda>(name, child). pushMapped [] name child (enhance opts child))
                                   (traverse [] c))"
  have U: "mapChildren (enhance opts) c = Array ys"
    using False by (simp add: mapChildren_enhance ys_def)
  have "solid y \<and> stripKeys (enhance opts y) = stripKeys y" if "y \<in> set ys" for y
  proof -
    from that obtain name x where nx: "(name, x) \<in> set (traverse [] c)"
      and y: "y \<in> set (pushMapped [] name x (enhance opts x))"
      by (auto simp: ys_def)
    from nx have "x = Null \<or> solid x"
      by (rule traverse_leaf(1))
    then show ?thesis
      using assms [OF nx] y by (rule pushMapped_fixed)
  qed
  then have "stripKeys (mapChildren (enhance opts) (Array ys)) = Array (map stripKeys ys)"
    by (rule mapChildren_flat)
  then show ?thesis
    by (simp add: U)
qed

text \<open>(B) \<^verbatim>\<open>enhance\<close> twice is \<^verbatim>\<open>enhance\<close> once, up to keys.\<close>

lemma enhance_idem:
  "stripKeys (enhance opts (enhance opts x)) = stripKeys (enhance opts x)"
proof (induction opts x rule: enhance.induct)
  case (8 opts cid displayName key own)
  show ?case
  proof (cases "hasKeys (inheritedProps opts (childName displayName))")
    case True
    then obtain a where a: "inheritedProps opts (childName displayName) = Some a" "a \<noteq> fmempty"
      by (auto simp: hasKeys_def split: option.splits)
    define own1 where "own1 = own ++\<^sub>f assignable (a ++\<^sub>f own)"
    have once: "enhance opts (Element (Component cid displayName) key own) =
                  Element (Component cid displayName) (cloneKey key (a ++\<^sub>f own)) own1"
      by (simp add: enhance_matched [OF a] cloneElement_def own1_def)
    have twice: "enhance opts (Element (Component cid displayName) (cloneKey key (a ++\<^sub>f own)) own1) =
                  Element (Component cid displayName)
                    (cloneKey (cloneKey key (a ++\<^sub>f own)) (a ++\<^sub>f own1)) own1"
      by (simp only: enhance_matched [OF a] cloneElement_def own1_def assignable_again)
    show ?thesis
      by (simp only: once twice stripKeys.simps)
  next
    case False
    show ?thesis
    proof (cases "fmlookup own ''children''")
      case None
      with False show ?thesis
        by (simp add: enhance_unmatched_leaf)
    next
      case (Some c)
      show ?thesis
      proof (cases "truthy c")
        case True
        then have ne: "c \<noteq> Null" "c \<noteq> Undefined"
          by auto
        have t: "truthy (mapChildren (enhance opts) c)"
          using ne by (simp add: mapChildren_enhance)
        have "stripKeys (mapChildren (enhance opts) (mapChildren (enhance opts) c)) =
              stripKeys (mapChildren (enhance opts) c)"
          by (rule mapChildren_idem) (rule "8.IH" [OF False Some True])
        with False Some True t show ?thesis
          by (simp add: enhance_unmatched_children fmmap_fmupd)
      next
        case falsy: False
        with False Some show ?thesis
          by (simp add: enhance_unmatched_leaf)
      qed
    qed
  qed
qed simp_all

text \<open>
  C10, amended. Applying the hook to its own result, with the same options, gives the
  same result up to the keys of the elements: the same values, types and props
  everywhere, with no prop added and none changed. Only the keys differ, which
  \<^verbatim>\<open>React.Children.map\<close> derives again on every pass.
\<close>

theorem idempotent_up_to_keys:
  "stripKeys (useEnhanceChildren (useEnhanceChildren children opts) opts) =
   stripKeys (useEnhanceChildren children opts)"
  unfolding useEnhanceChildren_def
  by (rule mapChildren_idem) (rule enhance_idem)

text \<open>
  C10, as it stands, fails on the keys. A \<^verbatim>\<open>Card.Header\<close> without a key leaves the
  first pass with the key \<^verbatim>\<open>.0\<close>, and the second with the key \<^verbatim>\<open>.$.0\<close>: the two
  results are not structurally equal.
\<close>

theorem keys_change_on_second_pass:
  "useEnhanceChildren (Element (Component 1 (Some ''Card.Header'')) None fmempty)
     \<lparr>mapProps = Some (fmupd ''Card.Header'' (fmupd ''title'' (Text ''T'') fmempty) fmempty), props = None\<rparr>
   = Array [Element (Component 1 (Some ''Card.Header'')) (Some ''.0'') (fmupd ''title'' (Text ''T'') fmempty)] \<and>
   useEnhanceChildren
     (useEnhanceChildren (Element (Component 1 (Some ''Card.Header'')) None fmempty)
        \<lparr>mapProps = Some (fmupd ''Card.Header'' (fmupd ''title'' (Text ''T'') fmempty) fmempty), props = None\<rparr>)
     \<lparr>mapProps = Some (fmupd ''Card.Header'' (fmupd ''title'' (Text ''T'') fmempty) fmempty), props = None\<rparr>
   = Array [Element (Component 1 (Some ''Card.Header'')) (Some ''.$.0'') (fmupd ''title'' (Text ''T'') fmempty)] \<and>
   useEnhanceChildren
     (useEnhanceChildren (Element (Component 1 (Some ''Card.Header'')) None fmempty)
        \<lparr>mapProps = Some (fmupd ''Card.Header'' (fmupd ''title'' (Text ''T'') fmempty) fmempty), props = None\<rparr>)
     \<lparr>mapProps = Some (fmupd ''Card.Header'' (fmupd ''title'' (Text ''T'') fmempty) fmempty), props = None\<rparr>
   \<noteq> useEnhanceChildren (Element (Component 1 (Some ''Card.Header'')) None fmempty)
     \<lparr>mapProps = Some (fmupd ''Card.Header'' (fmupd ''title'' (Text ''T'') fmempty) fmempty), props = None\<rparr>"
  by (simp add: useEnhanceChildren_def mapChildren_enhance enhance.simps(8) inheritedProps_def
        childName_def hasKeys_def spread_def cloneElement_def cloneKey_def assignable_def
        reserved_def digit36_def escape_def)

end
